theory Spec2Isabelle
  imports Main "HOL-Library.Word"
begin

section \<open>Go library functions used by the bootstrap\<close>

text \<open>
  \<^verbatim>\<open>strings.Index(s, sep)\<close> for a one-byte separator: the position of the first
  occurrence, or \<open>-1\<close> when there is none. Go strings are byte sequences, and so are
  HOL strings.
\<close>

fun strings_Index :: "string \<Rightarrow> char \<Rightarrow> int" where
  "strings_Index [] sep = -1"
| "strings_Index (c # cs) sep =
     (if c = sep then 0
      else (let m = strings_Index cs sep in if m < 0 then -1 else m + 1))"

lemma strings_Index_ge: "- 1 \<le> strings_Index s sep"
  by (induction s) (auto simp: Let_def)

lemma strings_Index_bound: "strings_Index s sep < int (length s)"
  by (induction s) (auto simp: Let_def)

lemma strings_Index_absent: "strings_Index s sep < 0 \<longleftrightarrow> sep \<notin> set s"
  using strings_Index_ge [of _ sep]
  by (induction s) (auto simp: Let_def)

lemma strings_Index_take:
  "0 \<le> strings_Index s sep \<Longrightarrow> sep \<notin> set (take (nat (strings_Index s sep)) s)"
proof (induction s)
  case Nil
  then show ?case by simp
next
  case (Cons c cs)
  show ?case
  proof (cases "c = sep")
    case True
    then show ?thesis by simp
  next
    case False
    with Cons.prems have m: "0 \<le> strings_Index cs sep"
      by (simp add: Let_def split: if_splits)
    then have "nat (strings_Index cs sep + 1) = Suc (nat (strings_Index cs sep))"
      by simp
    with False m Cons.IH show ?thesis
      by (simp add: Let_def)
  qed
qed

lemma strings_Index_nth:
  "0 \<le> strings_Index s sep \<Longrightarrow>
     take (nat (strings_Index s sep)) s @ sep # drop (nat (strings_Index s sep) + 1) s = s"
proof (induction s)
  case Nil
  then show ?case by simp
next
  case (Cons c cs)
  show ?case
  proof (cases "c = sep")
    case True
    then show ?thesis by simp
  next
    case False
    with Cons.prems have m: "0 \<le> strings_Index cs sep"
      by (simp add: Let_def split: if_splits)
    then have "nat (strings_Index cs sep + 1) = Suc (nat (strings_Index cs sep))"
      by simp
    with False m Cons.IH show ?thesis
      by (simp add: Let_def)
  qed
qed

text \<open>
  \<^verbatim>\<open>strings.Split(s, sep)\<close> for a one-byte separator, following the loop of the
  library's \<^verbatim>\<open>genSplit\<close>: cut at the first separator, continue behind it
  (\<^verbatim>\<open>s = s[m+len(sep):]\<close>), and end with the rest of the string.
\<close>

function strings_Split :: "string \<Rightarrow> char \<Rightarrow> string list" where
  "strings_Split s sep =
     (let m = strings_Index s sep
      in if m < 0 then [s]
         else take (nat m) s # strings_Split (drop (nat m + 1) s) sep)"
  by pat_completeness auto
termination
proof (relation "measure (\<lambda>(s, sep). length s)")
  show "wf (measure (\<lambda>(s, sep). length s))" by simp
next
  fix s :: string and sep :: char and x :: int
  assume "x = strings_Index s sep" and "\<not> x < 0"
  moreover have "strings_Index s sep < int (length s)"
    by (rule strings_Index_bound)
  ultimately show "((drop (nat x + 1) s, sep), (s, sep)) \<in> measure (\<lambda>(s, sep). length s)"
    by simp
qed

declare strings_Split.simps [simp del]

text \<open>\<^verbatim>\<open>time.Duration\<close> is an \<^verbatim>\<open>int64\<close> count of nanoseconds.\<close>

type_synonym Duration = "64 word"

definition time_Second :: Duration where
  "time_Second = 1000000000"

section \<open>The bootstrap: pilot/cmd/rpc-controller/main.go\<close>

text \<open>A Go \<^verbatim>\<open>error\<close> value with its message; \<^verbatim>\<open>nil\<close> is \<open>None\<close>.\<close>

datatype error = Error string

fun Error_msg :: "error \<Rightarrow> string" where
  "Error_msg (Error m) = m"

text \<open>The package-level variables that \<^verbatim>\<open>init\<close> binds to command-line flags.\<close>

record flags =
  masterURL :: string
  kubeconfig :: string
  healthPort :: int
  corednsAddress :: string
  etcdKeyFile :: string
  etcdCertFile :: string
  etcdCaCertile :: string
  etcdEndpoints :: string

text \<open>The default of every flag, as \<^verbatim>\<open>init\<close> registers them.\<close>

definition init_flags :: flags where
  "init_flags =
     \<lparr>masterURL = '''', kubeconfig = '''', healthPort = 12345, corednsAddress = '''',
      etcdKeyFile = '''', etcdCertFile = '''', etcdCaCertile = '''', etcdEndpoints = ''''\<rparr>"

text \<open>\<^verbatim>\<open>controller.Config\<close>, with the fields the bootstrap assigns.\<close>

record Config =
  CoreDnsAddress :: string
  EtcdKeyFile :: string
  EtcdCertFile :: string
  EtcdCaCertFile :: string
  EtcdEndpoints :: "string list"

text \<open>
  The packages the command calls are outside this file. Each call that can fail is a
  field holding what the call returns: \<open>'rc\<close> is the REST configuration, \<open>'kc\<close> the
  kubernetes clientset and \<open>'wc\<close> the watcher clientset, all opaque to the bootstrap.
  \<^verbatim>\<open>log.Configure\<close> is called twice; its argument here is the number of earlier calls.
  \<^verbatim>\<open>controller.NewController\<close> returns a controller and no error, so it has no
  field; \<^verbatim>\<open>controller.Run\<close> is given what the constructor was given, and the
  number of workers.
\<close>

record ('rc, 'kc, 'wc) packages =
  log_Configure :: "nat \<Rightarrow> error option"
  version_Info :: string
  BuildConfigFromFlags :: "string \<Rightarrow> string \<Rightarrow> error + 'rc"
  kubernetes_NewForConfig :: "'rc \<Rightarrow> error + 'kc"
  clientset_NewForConfig :: "'rc \<Rightarrow> error + 'wc"
  controller_Run :: "'kc \<Rightarrow> 'wc \<Rightarrow> Config \<Rightarrow> int \<Rightarrow> error option"

text \<open>What the command does besides returning, in the order it does it.\<close>

datatype ('kc, 'wc) effect =
    LogInfof string
  | LogErrorf string
  | GoHealthCheckHTTPServer int
  | SetupSignalHandler
  | NewKubeInformerFactory 'kc Duration
  | NewWatcherInformerFactory 'wc Duration
  | NewController 'kc 'wc Config
  | GoKubeInformerFactoryStart
  | GoWatcherInformerFactoryStart
  | ControllerRun int

text \<open>Lines 96 to 101: the configuration handed to the controller.\<close>

definition make_Config :: "flags \<Rightarrow> Config" where
  "make_Config f =
     \<lparr>CoreDnsAddress = corednsAddress f,
      EtcdKeyFile = etcdKeyFile f,
      EtcdCertFile = etcdCertFile f,
      EtcdCaCertFile = etcdCaCertile f,
      EtcdEndpoints = strings_Split (etcdEndpoints f) CHR '',''\<rparr>"

text \<open>
  \<^verbatim>\<open>proxyCmd.RunE\<close>: the effects so far and the returned error. Every
  \<^verbatim>\<open>return err\<close> of the source is a branch that ends the trace.
\<close>

definition RunE ::
  "('rc, 'kc, 'wc) packages \<Rightarrow> flags \<Rightarrow> ('kc, 'wc) effect list \<times> error option" where
  "RunE p f =
     (case log_Configure p 0 of
        Some err \<Rightarrow> ([], Some err)
      | None \<Rightarrow>
     (let t1 = [LogInfof (''Version '' @ version_Info p),
                GoHealthCheckHTTPServer (healthPort f),
                SetupSignalHandler] in
     (case log_Configure p 1 of
        Some err \<Rightarrow> (t1, Some err)
      | None \<Rightarrow>
     (case BuildConfigFromFlags p (masterURL f) (kubeconfig f) of
        Inl err \<Rightarrow>
          (t1 @ [LogErrorf (''Error building kubeconfig: '' @ Error_msg err)], Some err)
      | Inr cfg \<Rightarrow>
     (let config = make_Config f in
     (case kubernetes_NewForConfig p cfg of
        Inl err \<Rightarrow>
          (t1 @ [LogErrorf (''Error building kubernetes clientset: '' @ Error_msg err)],
           Some err)
      | Inr kubeClient \<Rightarrow>
     (let t2 = t1 @ [NewKubeInformerFactory kubeClient (time_Second * 30)] in
     (case clientset_NewForConfig p cfg of
        Inl err \<Rightarrow>
          (t2 @ [LogErrorf (''Error building watcher clientset: '' @ Error_msg err)],
           Some err)
      | Inr watcherClient \<Rightarrow>
     (let t3 = t2 @ [NewWatcherInformerFactory watcherClient (time_Second * 30),
                     NewController kubeClient watcherClient config,
                     GoKubeInformerFactoryStart,
                     GoWatcherInformerFactoryStart,
                     ControllerRun 2] in
     (case controller_Run p kubeClient watcherClient config 2 of
        Some err \<Rightarrow>
          (t3 @ [LogErrorf (''Error running controller: '' @ Error_msg err)], Some err)
      | None \<Rightarrow> (t3, None)))))))))))"

text \<open>
  \<^verbatim>\<open>main\<close> for the \<^verbatim>\<open>run\<close> subcommand: the argument of \<^verbatim>\<open>os.Exit\<close> when
  the command returns an error (which is logged first), and 0 when \<^verbatim>\<open>main\<close>
  returns normally.
\<close>

definition main_exit :: "('rc, 'kc, 'wc) packages \<Rightarrow> flags \<Rightarrow> int" where
  "main_exit p f = (case snd (RunE p f) of Some err \<Rightarrow> - 1 | None \<Rightarrow> 0)"

text \<open>A run in which every call succeeds, for concrete evaluation.\<close>

definition all_ok :: "(unit, unit, unit) packages" where
  "all_ok =
     \<lparr>log_Configure = (\<lambda>n. None), version_Info = ''1.0'',
      BuildConfigFromFlags = (\<lambda>m k. Inr ()),
      kubernetes_NewForConfig = (\<lambda>c. Inr ()),
      clientset_NewForConfig = (\<lambda>c. Inr ()),
      controller_Run = (\<lambda>kc wc c n. None)\<rparr>"

subsection \<open>The health check server\<close>

text \<open>
  The part of \<^verbatim>\<open>net/http\<close> that the handler uses. A response writer records
  whether the header went out, the status code and the body written so far.
  \<^verbatim>\<open>WriteHeader\<close> takes effect once; writing a body sends the header with status
  200 first when none was sent.
\<close>

record request =
  Method :: string
  URL_Path :: string

record response =
  wroteHeader :: bool
  status :: int
  body :: string

definition new_response :: response where
  "new_response = \<lparr>wroteHeader = False, status = 0, body = []\<rparr>"

definition StatusOK :: int where
  "StatusOK = 200"

definition WriteHeader :: "int \<Rightarrow> response \<Rightarrow> response" where
  "WriteHeader code w = (if wroteHeader w then w else w\<lparr>wroteHeader := True, status := code\<rparr>)"

definition Fprint :: "string \<Rightarrow> response \<Rightarrow> response" where
  "Fprint a w =
     (let w' = (if wroteHeader w then w else WriteHeader StatusOK w)
      in w'\<lparr>body := body w' @ a\<rparr>)"

text \<open>
  The closure registered for \<^verbatim>\<open>/healthz\<close>. The argument \<open>g\<close> stands for
  everything in scope of the closure besides its two parameters (the package-level
  variables, and with them whatever the controller has done so far): the body reads
  none of it, and it does not read the request.
\<close>

definition healthz_handler :: "'g \<Rightarrow> response \<Rightarrow> request \<Rightarrow> response" where
  "healthz_handler g w r = Fprint ''ok'' (WriteHeader StatusOK w)"







text \<open>
  \<^verbatim>\<open>strings.Join(elems, sep)\<close>, the inverse the library documents for
  \<^verbatim>\<open>Split\<close>; used only to say what splitting means.
\<close>

fun strings_Join :: "string list \<Rightarrow> string \<Rightarrow> string" where
  "strings_Join [] sep = []"
| "strings_Join [a] sep = a"
| "strings_Join (a # b # bs) sep = a @ sep @ strings_Join (b # bs) sep"

section \<open>The reconciliation engine\<close>

text \<open>
  The bootstrap hands everything to the package \<^verbatim>\<open>pkg/rpccontroller/controller\<close> and
  its work queue, whose sources are missing here. The definitions of this section
  follow the design document instead, sections 3 to 5 and 7.
\<close>

subsection \<open>WorkQueue\<close>

text \<open>
  Modelled from the spec: the WorkQueue component (section 4.2), whose source is missing.
  The keys awaiting delivery in order, the keys checked out (between \<^verbatim>\<open>Get\<close> and
  \<^verbatim>\<open>Done\<close>), and the checked-out keys marked dirty. The operations are atomic
  (section 9: key-set membership guarded by a mutex), so concurrent calls are a
  sequence of calls. \<^verbatim>\<open>ShutDown\<close> is left out.
\<close>

record 'k workqueue =
  queue :: "'k list"
  processing :: "'k set"
  dirty :: "'k set"

text \<open>
  Modelled from the spec: \<^verbatim>\<open>Add\<close> of the missing WorkQueue. A key present in the queue
  absorbs the call; a key being processed is marked dirty; any other key is queued.
\<close>

definition Add :: "'k \<Rightarrow> 'k workqueue \<Rightarrow> 'k workqueue" where
  "Add k q =
     (if k \<in> set (queue q) then q
      else if k \<in> processing q then q\<lparr>dirty := insert k (dirty q)\<rparr>
      else q\<lparr>queue := queue q @ [k]\<rparr>)"

text \<open>
  Modelled from the spec: \<^verbatim>\<open>Get\<close> of the missing WorkQueue. It checks out the key at
  the head; on an empty queue the call blocks, which is \<open>None\<close> here.
\<close>

definition Get :: "'k workqueue \<Rightarrow> ('k \<times> 'k workqueue) option" where
  "Get q =
     (case queue q of
        [] \<Rightarrow> None
      | k # rest \<Rightarrow> Some (k, q\<lparr>queue := rest, processing := insert k (processing q)\<rparr>))"

text \<open>
  Modelled from the spec: \<^verbatim>\<open>Done\<close> of the missing WorkQueue. The key is checked in,
  and a key marked dirty meanwhile is queued again.
\<close>

definition Done :: "'k \<Rightarrow> 'k workqueue \<Rightarrow> 'k workqueue" where
  "Done k q =
     (let q' = q\<lparr>processing := processing q - {k}\<rparr>
      in if k \<in> dirty q then q'\<lparr>dirty := dirty q - {k}, queue := queue q @ [k]\<rparr> else q')"

text \<open>
  Modelled from the spec: callers of the missing WorkQueue. A sequence of calls, and
  the keys that the \<^verbatim>\<open>Get\<close> calls among them deliver, in order.
\<close>

datatype 'k call = CallAdd 'k | CallGet | CallDone 'k

text \<open>
  Modelled from the spec: a run of calls on the missing WorkQueue; a \<^verbatim>\<open>Get\<close> on an
  empty queue delivers nothing.
\<close>

fun calls :: "'k call list \<Rightarrow> 'k workqueue \<Rightarrow> 'k list \<times> 'k workqueue" where
  "calls [] q = ([], q)"
| "calls (CallAdd k # cs) q = calls cs (Add k q)"
| "calls (CallGet # cs) q =
     (case Get q of
        None \<Rightarrow> calls cs q
      | Some (k, q') \<Rightarrow> (k # fst (calls cs q'), snd (calls cs q')))"
| "calls (CallDone k # cs) q = calls cs (Done k q)"

subsection \<open>Watcher cache, store and workers\<close>

text \<open>
  Modelled from the spec: the outcome of the store operations of one reconciliation
  (section 4.4); the KeyValueClient is missing. Either they succeed, or the store
  cannot be reached, or it rejects the write.
\<close>

datatype outcome = StoreOk | StoreUnavailable | StoreRejected

text \<open>
  Modelled from the spec: where a worker of the missing WorkerPool stands with a key
  it has checked out (sections 4.3 and 4.5): fetched from the queue, desired
  specification read from the cache, or decision applied and outcome reported.
\<close>

datatype 's phase = Fetched | Resolved "'s option" | Reported

text \<open>
  Modelled from the spec: the state of the missing controller. The watcher's cache of
  declared specifications, the external store, the work queue, the keys waiting for
  their back-off delay, the attempt count of each key, the workers' progress and the
  error reports. A store key is derived from the reconcile key by a deterministic,
  reversible mapping (section 6), so the store is indexed by the reconcile key.
\<close>

record ('k, 's, 'v) controller =
  cache :: "'k \<rightharpoonup> 's"
  store :: "'k \<rightharpoonup> 'v"
  wq :: "'k workqueue"
  waiting :: "'k set"
  attempts :: "'k \<Rightarrow> nat"
  work :: "'k \<Rightarrow> 's phase"
  reports :: "'k list"


text \<open>
  Modelled from the spec: notification by the missing ResourceWatcher (section 4.1);
  the key, and only the key, goes to the queue.
\<close>

definition notify :: "'k \<Rightarrow> ('k, 's, 'v) controller \<Rightarrow> ('k, 's, 'v) controller" where
  "notify k c = c\<lparr>wq := Add k (wq c)\<rparr>"

text \<open>
  Modelled from the spec: the report step of the missing Reconciler (section 4.3,
  step 4). Success forgets the key's back-off; a transient failure requeues the key
  after its delay while the attempts are below the ceiling, and otherwise reports
  an error and forgets the key; a permanent failure reports and forgets at once.
\<close>

definition report_success :: "'k \<Rightarrow> ('k, 's, 'v) controller \<Rightarrow> ('k, 's, 'v) controller" where
  "report_success k c = c\<lparr>attempts := (attempts c)(k := 0)\<rparr>"

text \<open>
  Modelled from the spec: the report of a transient failure in the missing Reconciler
  (section 4.3, step 4): a rate-limited requeue below the retry ceiling, one error
  report and the key forgotten at the ceiling.
\<close>

definition report_transient ::
  "nat \<Rightarrow> 'k \<Rightarrow> ('k, 's, 'v) controller \<Rightarrow> ('k, 's, 'v) controller" where
  "report_transient ceiling k c =
     (if attempts c k < ceiling
      then c\<lparr>attempts := (attempts c)(k := attempts c k + 1), waiting := insert k (waiting c)\<rparr>
      else c\<lparr>attempts := (attempts c)(k := 0), reports := reports c @ [k]\<rparr>)"

text \<open>
  Modelled from the spec: the report of a permanent failure in the missing Reconciler
  (section 7): not retried, reported, the key forgotten.
\<close>

definition report_permanent :: "'k \<Rightarrow> ('k, 's, 'v) controller \<Rightarrow> ('k, 's, 'v) controller" where
  "report_permanent k c = c\<lparr>attempts := (attempts c)(k := 0), reports := reports c @ [k]\<rparr>"

text \<open>
  Modelled from the spec: steps 2 to 4 of the missing Reconciler (section 4.3) for a
  key whose desired specification \<open>want\<close> was resolved. The external record is loaded
  and compared; a record that matches is left alone, any other is written or deleted;
  \<open>encode\<close> is the RecordCodec.
\<close>

definition reconcile ::
  "nat \<Rightarrow> ('s \<Rightarrow> 'v) \<Rightarrow> 'k \<Rightarrow> 's option \<Rightarrow> outcome \<Rightarrow>
     ('k, 's, 'v) controller \<Rightarrow> ('k, 's, 'v) controller" where
  "reconcile ceiling encode k want out c =
     (if out = StoreUnavailable then report_transient ceiling k c
      else if store c k = map_option encode want then report_success k c
      else if out = StoreRejected then report_permanent k c
      else report_success k (c\<lparr>store := (store c)(k := map_option encode want)\<rparr>))"

text \<open>
  Modelled from the spec: what can happen next in the missing controller. The watcher
  updates its cache and then publishes the event (section 4.1) or re-notifies a key;
  a worker fetches a key, resolves it, applies and reports, and checks it in (sections
  4.3 and 4.5); a back-off delay ends. A step that cannot happen in a state leaves it
  as it is.
\<close>

datatype ('k, 's) action =
    Created 'k 's
  | Updated 'k 's
  | Deleted 'k
  | Resync 'k
  | WorkerGet
  | WorkerResolve 'k
  | WorkerApply 'k outcome
  | WorkerDone 'k
  | BackoffElapsed 'k

text \<open>
  Modelled from the spec: the effect of one such step on the state of the missing
  controller.
\<close>

fun step ::
  "nat \<Rightarrow> ('s \<Rightarrow> 'v) \<Rightarrow> ('k, 's) action \<Rightarrow> ('k, 's, 'v) controller \<Rightarrow> ('k, 's, 'v) controller" where
  "step ceiling encode (Created k sp) c = notify k (c\<lparr>cache := (cache c)(k \<mapsto> sp)\<rparr>)"
| "step ceiling encode (Updated k sp) c = notify k (c\<lparr>cache := (cache c)(k \<mapsto> sp)\<rparr>)"
| "step ceiling encode (Deleted k) c = notify k (c\<lparr>cache := (cache c)(k := None)\<rparr>)"
| "step ceiling encode (Resync k) c = notify k c"
| "step ceiling encode WorkerGet c =
     (case Get (wq c) of
        None \<Rightarrow> c
      | Some (k, q') \<Rightarrow> c\<lparr>wq := q', work := (work c)(k := Fetched)\<rparr>)"
| "step ceiling encode (WorkerResolve k) c =
     (if k \<in> processing (wq c) \<and> work c k = Fetched
      then c\<lparr>work := (work c)(k := Resolved (cache c k))\<rparr>
      else c)"
| "step ceiling encode (WorkerApply k out) c =
     (if k \<in> processing (wq c)
      then (case work c k of
              Resolved want \<Rightarrow>
                (reconcile ceiling encode k want out c)\<lparr>work := (work c)(k := Reported)\<rparr>
            | _ \<Rightarrow> c)
      else c)"
| "step ceiling encode (WorkerDone k) c =
     (if k \<in> processing (wq c) \<and> work c k = Reported
      then c\<lparr>wq := Done k (wq c)\<rparr>
      else c)"
| "step ceiling encode (BackoffElapsed k) c =
     (if k \<in> waiting c then notify k (c\<lparr>waiting := waiting c - {k}\<rparr>) else c)"

text \<open>
  Modelled from the spec: a finite run of the missing controller, step after step.
\<close>

fun run ::
  "nat \<Rightarrow> ('s \<Rightarrow> 'v) \<Rightarrow> ('k, 's) action list \<Rightarrow> ('k, 's, 'v) controller \<Rightarrow> ('k, 's, 'v) controller" where
  "run ceiling encode [] c = c"
| "run ceiling encode (st # sts) c = run ceiling encode sts (step ceiling encode st c)"






subsection \<open>Auxiliary notions for the proofs\<close>




text \<open>
  A fresh work queue, and the queue states in which no key is both queued and checked
  out, no key is queued twice, and only checked-out keys are dirty.
\<close>

definition new_queue :: "'k workqueue" where
  "new_queue = \<lparr>queue = [], processing = {}, dirty = {}\<rparr>"

definition wq_ok :: "'k workqueue \<Rightarrow> bool" where
  "wq_ok q \<longleftrightarrow>
     distinct (queue q) \<and> set (queue q) \<inter> processing q = {} \<and> dirty q \<subseteq> processing q"



section \<open>Properties of the bootstrap\<close>

subsection \<open>Splitting the endpoint flag\<close>

lemma strings_Split_nonempty: "strings_Split s sep \<noteq> []"
  by (subst strings_Split.simps) (simp add: Let_def)

lemma strings_Split_empty: "strings_Split [] sep = [[]]"
  by (subst strings_Split.simps) simp

lemma strings_Split_pieces: "e \<in> set (strings_Split s sep) \<Longrightarrow> sep \<notin> set e"
proof (induction s sep arbitrary: e rule: strings_Split.induct)
  case (1 s sep)
  show ?case
  proof (cases "strings_Index s sep < 0")
    case True
    with "1.prems" have "e = s"
      by (subst (asm) strings_Split.simps) (simp add: Let_def)
    with True show ?thesis
      by (simp add: strings_Index_absent)
  next
    case False
    with "1.prems" have "e = take (nat (strings_Index s sep)) s
        \<or> e \<in> set (strings_Split (drop (nat (strings_Index s sep) + 1) s) sep)"
      by (subst (asm) strings_Split.simps) (simp add: Let_def)
    then show ?thesis
    proof
      assume "e = take (nat (strings_Index s sep)) s"
      with False show ?thesis
        using strings_Index_take [of s sep] by simp
    next
      assume "e \<in> set (strings_Split (drop (nat (strings_Index s sep) + 1) s) sep)"
      with False "1.IH" [OF refl] show ?thesis by simp
    qed
  qed
qed

lemma strings_Join_Cons:
  "ys \<noteq> [] \<Longrightarrow> strings_Join (a # ys) sep = a @ sep @ strings_Join ys sep"
  by (cases ys) simp_all

lemma strings_Join_Split: "strings_Join (strings_Split s sep) [sep] = s"
proof (induction s sep rule: strings_Split.induct)
  case (1 s sep)
  show ?case
  proof (cases "strings_Index s sep < 0")
    case True
    then show ?thesis
      by (subst strings_Split.simps) (simp add: Let_def)
  next
    case False
    let ?m = "nat (strings_Index s sep)"
    from False have split: "strings_Split s sep = take ?m s # strings_Split (drop (?m + 1) s) sep"
      by (subst strings_Split.simps) (simp add: Let_def)
    from False "1.IH" [OF refl]
    have ih: "strings_Join (strings_Split (drop (?m + 1) s) sep) [sep] = drop (?m + 1) s"
      by simp
    from False have "take ?m s @ sep # drop (?m + 1) s = s"
      using strings_Index_nth [of s sep] by simp
    with split ih show ?thesis
      by (simp add: strings_Join_Cons strings_Split_nonempty)
  qed
qed

subsection \<open>The run command\<close>

lemma RunE_startup_ok:
  assumes "log_Configure p 0 = None" and "log_Configure p 1 = None"
    and "BuildConfigFromFlags p (masterURL f) (kubeconfig f) = Inr cfg"
    and "kubernetes_NewForConfig p cfg = Inr kc"
    and "clientset_NewForConfig p cfg = Inr wc"
  shows "\<exists>post. fst (RunE p f) =
           [LogInfof (''Version '' @ version_Info p),
            GoHealthCheckHTTPServer (healthPort f),
            SetupSignalHandler,
            NewKubeInformerFactory kc (time_Second * 30),
            NewWatcherInformerFactory wc (time_Second * 30),
            NewController kc wc (make_Config f),
            GoKubeInformerFactoryStart,
            GoWatcherInformerFactoryStart,
            ControllerRun 2] @ post"
    and "snd (RunE p f) = controller_Run p kc wc (make_Config f) 2"
  using assms by (auto simp: RunE_def Let_def split: option.splits)

lemma RunE_NewController_mem:
  "NewController kc wc c \<in> set (fst (RunE p f)) \<Longrightarrow>
     c = make_Config f \<and> log_Configure p 0 = None \<and> log_Configure p 1 = None \<and>
     (\<exists>cfg. BuildConfigFromFlags p (masterURL f) (kubeconfig f) = Inr cfg \<and>
        kubernetes_NewForConfig p cfg = Inr kc \<and> clientset_NewForConfig p cfg = Inr wc)"
  by (auto simp: RunE_def Let_def split: option.splits sum.splits)

lemma RunE_ControllerRun_mem:
  "ControllerRun n \<in> set (fst (RunE p f)) \<Longrightarrow> n = 2"
  by (auto simp: RunE_def Let_def split: option.splits sum.splits)

lemma RunE_kube_factory_mem:
  "NewKubeInformerFactory kc d \<in> set (fst (RunE p f)) \<Longrightarrow> d = time_Second * 30"
  by (auto simp: RunE_def Let_def split: option.splits sum.splits)

lemma RunE_watcher_factory_mem:
  "NewWatcherInformerFactory wc d \<in> set (fst (RunE p f)) \<Longrightarrow> d = time_Second * 30"
  by (auto simp: RunE_def Let_def split: option.splits sum.splits)

lemma RunE_error_iff:
  "snd (RunE p f) \<noteq> None \<longleftrightarrow>
     (log_Configure p 0 \<noteq> None \<or> log_Configure p 1 \<noteq> None \<or>
      isl (BuildConfigFromFlags p (masterURL f) (kubeconfig f)) \<or>
      (\<exists>cfg. BuildConfigFromFlags p (masterURL f) (kubeconfig f) = Inr cfg \<and>
         (isl (kubernetes_NewForConfig p cfg) \<or> isl (clientset_NewForConfig p cfg) \<or>
          (\<exists>kc wc. kubernetes_NewForConfig p cfg = Inr kc \<and>
             clientset_NewForConfig p cfg = Inr wc \<and>
             controller_Run p kc wc (make_Config f) 2 \<noteq> None))))"
  by (auto simp: RunE_def Let_def split: option.splits sum.splits)


section \<open>Properties of the reconciliation engine\<close>

subsection \<open>The convergence invariant\<close>




















subsection \<open>The work queue\<close>

lemma calls_in_flight:
  assumes "k \<in> processing q" and "k \<notin> set (queue q)" and "CallDone k \<notin> set cs"
  shows "k \<notin> set (fst (calls cs q)) \<and>
         k \<in> processing (snd (calls cs q)) \<and>
         k \<notin> set (queue (snd (calls cs q))) \<and>
         (k \<in> dirty (snd (calls cs q)) \<longleftrightarrow> k \<in> dirty q \<or> CallAdd k \<in> set cs)"
  using assms
proof (induction cs q rule: calls.induct)
  case (1 q)
  then show ?case by simp
next
  case (2 j cs q)
  then have "k \<in> processing (Add j q)" and "k \<notin> set (queue (Add j q))"
    and "k \<in> dirty (Add j q) \<longleftrightarrow> k \<in> dirty q \<or> j = k"
    by (auto simp: Add_def)
  with 2 show ?case by auto
next
  case (3 cs q)
  show ?case
  proof (cases "Get q")
    case None
    with 3 show ?thesis by simp
  next
    case (Some a)
    obtain j q' where a: "a = (j, q')" by (cases a)
    with Some "3.prems" have "j \<noteq> k" and "k \<in> processing q'" and "k \<notin> set (queue q')"
      and "dirty q' = dirty q"
      by (auto simp: Get_def split: list.splits)
    with 3(2) [OF Some a [symmetric]] "3.prems" Some a show ?thesis
      by simp
  qed
next
  case (4 j cs q)
  then have "j \<noteq> k" by auto
  then have "k \<in> dirty (Done j q) \<longleftrightarrow> k \<in> dirty q" 
    by (auto simp: Done_def Let_def)
  moreover from 4 \<open>j \<noteq> k\<close> have "k \<in> processing (Done j q)" and "k \<notin> set (queue (Done j q))"
    by (auto simp: Done_def Let_def)
  ultimately show ?case using 4 by auto
qed

lemma calls_once:
  assumes "k \<notin> dirty q" and "CallAdd k \<notin> set cs"
  shows "count_list (fst (calls cs q)) k + count_list (queue (snd (calls cs q))) k
           = count_list (queue q) k \<and> k \<notin> dirty (snd (calls cs q))"
  using assms
proof (induction cs q rule: calls.induct)
  case (1 q)
  then show ?case by simp
next
  case (2 j cs q)
  then have "j \<noteq> k" by auto
  with 2 have "k \<notin> dirty (Add j q)" and "count_list (queue (Add j q)) k = count_list (queue q) k"
    by (auto simp: Add_def)
  with 2 show ?case by auto
next
  case (3 cs q)
  show ?case
  proof (cases "Get q")
    case None
    with 3 show ?thesis by simp
  next
    case (Some a)
    obtain j q' where a: "a = (j, q')" by (cases a)
    with Some have q: "queue q = j # queue q'" and "dirty q' = dirty q"
      by (auto simp: Get_def split: list.splits)
    with 3(2) [OF Some a [symmetric]] "3.prems" Some a show ?thesis
      by simp
  qed
next
  case (4 j cs q)
  then have "k \<notin> dirty (Done j q)" and "count_list (queue (Done j q)) k = count_list (queue q) k"
    by (auto simp: Done_def Let_def)
  with 4 show ?case by auto
qed

lemma calls_Get_all:
  "fst (calls (replicate (length (queue q)) CallGet) q) = queue q"
proof (induction "queue q" arbitrary: q)
  case Nil
  then show ?case by simp
next
  case (Cons j rest)
  let ?q' = "q\<lparr>queue := rest, processing := insert j (processing q)\<rparr>"
  from Cons(2) have q: "queue q = j # rest" by simp
  then have g: "Get q = Some (j, ?q')"
    by (simp add: Get_def)
  have "rest = queue ?q'" by simp
  then have "fst (calls (replicate (length (queue ?q')) CallGet) ?q') = queue ?q'"
    by (rule Cons(1))
  with g q show ?case by simp
qed

lemma count_list_pos: "0 < count_list xs x \<longleftrightarrow> x \<in> set xs"
  by (induction xs) auto

lemma Done_dirty_once:
  assumes "k \<in> processing q" and "k \<notin> set (queue q)" and "k \<in> dirty q"
  shows "count_list (queue (Done k q)) k = 1 \<and> k \<notin> dirty (Done k q) \<and> k \<notin> processing (Done k q)"
  using assms by (simp add: Done_def Let_def)

subsection \<open>Concrete evaluations and the start-up path\<close>

lemma RunE_ok_constructed:
  "snd (RunE p f) = None \<Longrightarrow>
     \<exists>kc wc. NewController kc wc (make_Config f) \<in> set (fst (RunE p f))"
  by (auto simp: RunE_def Let_def split: option.splits sum.splits)

lemma split_two:
  "strings_Split ''10.0.0.5:2379,10.0.0.6:2379'' CHR '','' =
     [''10.0.0.5:2379'', ''10.0.0.6:2379'']"
  by code_simp

lemma join_two:
  "strings_Join [''10.0.0.5:2379'', ''10.0.0.6:2379''] '','' = ''10.0.0.5:2379,10.0.0.6:2379''"
  by simp

subsection \<open>Well-formed queues\<close>

lemma wq_ok_Add: "wq_ok q \<Longrightarrow> wq_ok (Add k q)"
  by (auto simp: wq_ok_def Add_def)

lemma wq_ok_Get: "wq_ok q \<Longrightarrow> Get q = Some (k, q') \<Longrightarrow> wq_ok q'"
  by (auto simp: wq_ok_def Get_def split: list.splits)

lemma wq_ok_Done: "wq_ok q \<Longrightarrow> wq_ok (Done k q)"
  by (auto simp: wq_ok_def Done_def Let_def)

lemma wq_ok_calls: "wq_ok q \<Longrightarrow> wq_ok (snd (calls cs q))"
proof (induction cs q rule: calls.induct)
  case (1 q)
  then show ?case by simp
next
  case (2 k cs q)
  then show ?case by (simp add: wq_ok_Add)
next
  case (3 cs q)
  then show ?case
    by (cases "Get q") (auto dest: wq_ok_Get)
next
  case (4 k cs q)
  then show ?case by (simp add: wq_ok_Done)
qed

lemma wq_ok_new: "wq_ok new_queue"
  by (simp add: wq_ok_def new_queue_def)

section \<open>The claims\<close>






text \<open>
  C2, as amended. The run command does not inspect the certificate paths or the
  endpoint list. It constructs the controller exactly when both logging configurations,
  the kubeconfig construction and both clientset constructions succeed, whatever the
  store flags hold; the constructor then gets the configuration made of the flag values
  as given, and the controller is run. When the controller is not constructed, the
  command returns an error.
\<close>

theorem startup_gate:
  "((\<exists>kc wc c. NewController kc wc c \<in> set (fst (RunE p f))) \<longleftrightarrow>
      (log_Configure p 0 = None \<and> log_Configure p 1 = None \<and>
       (\<exists>cfg kc wc. BuildConfigFromFlags p (masterURL f) (kubeconfig f) = Inr cfg \<and>
          kubernetes_NewForConfig p cfg = Inr kc \<and> clientset_NewForConfig p cfg = Inr wc))) \<and>
   ((\<exists>kc wc c. NewController kc wc c \<in> set (fst (RunE p
        (f\<lparr>etcdKeyFile := a, etcdCertFile := b, etcdCaCertile := ca, etcdEndpoints := e\<rparr>)))) \<longleftrightarrow>
      (\<exists>kc wc c. NewController kc wc c \<in> set (fst (RunE p f)))) \<and>
   (\<forall>kc wc c. NewController kc wc c \<in> set (fst (RunE p f)) \<longrightarrow>
      c = make_Config f \<and> ControllerRun 2 \<in> set (fst (RunE p f))) \<and>
   ((\<forall>kc wc c. NewController kc wc c \<notin> set (fst (RunE p f))) \<longrightarrow> snd (RunE p f) \<noteq> None)"
proof -
  have gate: "(\<exists>kc wc c. NewController kc wc c \<in> set (fst (RunE p g))) \<longleftrightarrow>
      (log_Configure p 0 = None \<and> log_Configure p 1 = None \<and>
       (\<exists>cfg kc wc. BuildConfigFromFlags p (masterURL g) (kubeconfig g) = Inr cfg \<and>
          kubernetes_NewForConfig p cfg = Inr kc \<and> clientset_NewForConfig p cfg = Inr wc))" for g
  proof
    assume "\<exists>kc wc c. NewController kc wc c \<in> set (fst (RunE p g))"
    then show "log_Configure p 0 = None \<and> log_Configure p 1 = None \<and>
       (\<exists>cfg kc wc. BuildConfigFromFlags p (masterURL g) (kubeconfig g) = Inr cfg \<and>
          kubernetes_NewForConfig p cfg = Inr kc \<and> clientset_NewForConfig p cfg = Inr wc)"
      by (blast dest: RunE_NewController_mem)
  next
    assume "log_Configure p 0 = None \<and> log_Configure p 1 = None \<and>
       (\<exists>cfg kc wc. BuildConfigFromFlags p (masterURL g) (kubeconfig g) = Inr cfg \<and>
          kubernetes_NewForConfig p cfg = Inr kc \<and> clientset_NewForConfig p cfg = Inr wc)"
    then obtain cfg kc wc where "log_Configure p 0 = None" "log_Configure p 1 = None"
      "BuildConfigFromFlags p (masterURL g) (kubeconfig g) = Inr cfg"
      "kubernetes_NewForConfig p cfg = Inr kc" "clientset_NewForConfig p cfg = Inr wc"
      by blast
    from RunE_startup_ok(1) [OF this]
    have "NewController kc wc (make_Config g) \<in> set (fst (RunE p g))" by auto
    then show "\<exists>kc wc c. NewController kc wc c \<in> set (fst (RunE p g))" by blast
  qed
  have run: "c = make_Config f \<and> ControllerRun 2 \<in> set (fst (RunE p f))"
    if "NewController kc wc c \<in> set (fst (RunE p f))" for kc wc c
  proof -
    from RunE_NewController_mem [OF that] obtain cfg where c: "c = make_Config f"
      and "log_Configure p 0 = None" "log_Configure p 1 = None"
      "BuildConfigFromFlags p (masterURL f) (kubeconfig f) = Inr cfg"
      "kubernetes_NewForConfig p cfg = Inr kc" "clientset_NewForConfig p cfg = Inr wc"
      by blast
    from RunE_startup_ok(1) [OF this(2-6)] have "ControllerRun 2 \<in> set (fst (RunE p f))"
      by auto
    with c show ?thesis by simp
  qed
  have err: "snd (RunE p f) \<noteq> None"
    if "\<forall>kc wc c. NewController kc wc c \<notin> set (fst (RunE p f))"
    using that RunE_ok_constructed [of p f] by blast
  show ?thesis
    using gate [of f]
      gate [of "f\<lparr>etcdKeyFile := a, etcdCertFile := b, etcdCaCertile := ca, etcdEndpoints := e\<rparr>"]
      run err
    by simp
qed

theorem startup_gate_witness:
  "(NewController () ()
      \<lparr>CoreDnsAddress = ''10.96.0.10'', EtcdKeyFile = ''/etc/key.pem'',
       EtcdCertFile = ''/etc/cert.pem'', EtcdCaCertFile = ''/etc/ca.pem'',
       EtcdEndpoints = [''10.0.0.5:2379'', ''10.0.0.6:2379'']\<rparr>
      \<in> set (fst (RunE all_ok
          (init_flags\<lparr>corednsAddress := ''10.96.0.10'', etcdKeyFile := ''/etc/key.pem'',
             etcdCertFile := ''/etc/cert.pem'', etcdCaCertile := ''/etc/ca.pem'',
             etcdEndpoints := ''10.0.0.5:2379,10.0.0.6:2379''\<rparr>)))) \<and>
   ControllerRun 2 \<in> set (fst (RunE all_ok
          (init_flags\<lparr>corednsAddress := ''10.96.0.10'', etcdKeyFile := ''/etc/key.pem'',
             etcdCertFile := ''/etc/cert.pem'', etcdCaCertile := ''/etc/ca.pem'',
             etcdEndpoints := ''10.0.0.5:2379,10.0.0.6:2379''\<rparr>)))"
proof -
  let ?f = "init_flags\<lparr>corednsAddress := ''10.96.0.10'', etcdKeyFile := ''/etc/key.pem'',
             etcdCertFile := ''/etc/cert.pem'', etcdCaCertile := ''/etc/ca.pem'',
             etcdEndpoints := ''10.0.0.5:2379,10.0.0.6:2379''\<rparr>"
  let ?c = "\<lparr>CoreDnsAddress = ''10.96.0.10'', EtcdKeyFile = ''/etc/key.pem'',
       EtcdCertFile = ''/etc/cert.pem'', EtcdCaCertFile = ''/etc/ca.pem'',
       EtcdEndpoints = [''10.0.0.5:2379'', ''10.0.0.6:2379'']\<rparr>"
  have m: "NewController () () ?c \<in> set (fst (RunE all_ok ?f))"
    by (simp add: RunE_def all_ok_def init_flags_def make_Config_def split_two)
  note g = startup_gate [of all_ok ?f "[]" "[]" "[]" "[]"]
  from g [THEN conjunct2, THEN conjunct2, THEN conjunct1]
  have "NewController () () ?c \<in> set (fst (RunE all_ok ?f)) \<longrightarrow>
          ?c = make_Config ?f \<and> ControllerRun 2 \<in> set (fst (RunE all_ok ?f))"
    by (elim allE)
  with m show ?thesis
    by (elim impE conjE) (assumption, intro conjI, assumption+)
qed

text \<open>
  C2, as stated, fails: with every flag at its default (no key file, no certificate
  file, no CA certificate file, no endpoint) and logging configuration, kubeconfig and
  both clientsets succeeding, the command does not fail before the controller: it
  constructs the controller with the empty configuration and calls its \<^verbatim>\<open>Run\<close>.
\<close>

theorem startup_validation_counterexample:
  "etcdKeyFile init_flags = [] \<and> etcdCertFile init_flags = [] \<and>
   etcdCaCertile init_flags = [] \<and> etcdEndpoints init_flags = [] \<and>
   NewController () ()
     \<lparr>CoreDnsAddress = [], EtcdKeyFile = [], EtcdCertFile = [], EtcdCaCertFile = [],
      EtcdEndpoints = [[]]\<rparr> \<in> set (fst (RunE all_ok init_flags)) \<and>
   ControllerRun 2 \<in> set (fst (RunE all_ok init_flags))"
  by (simp add: RunE_def all_ok_def init_flags_def make_Config_def strings_Split_empty)

text \<open>
  C3. In any state of the modelled work queue reached from a fresh queue, let a key be
  checked out. Whatever calls follow before its \<^verbatim>\<open>Done\<close>, among them \<open>n \<ge> 1\<close> calls of
  \<^verbatim>\<open>Add\<close> for the key: the key is not delivered while it is checked out; after its
  \<^verbatim>\<open>Done\<close> it is queued exactly once; fetching the whole queue delivers it exactly
  once; and through any later calls without a further \<^verbatim>\<open>Add\<close> of the key, it is
  delivered once or still queued once, never both and never more.
\<close>

theorem queue_dedup:
  assumes "q = snd (calls pre new_queue)"
    and "k \<in> processing q"
    and "count_list cs (CallAdd k) = n" and "1 \<le> n"
    and "CallDone k \<notin> set cs"
    and "q1 = Done k (snd (calls cs q))"
    and "CallAdd k \<notin> set cs'"
  shows "k \<notin> set (fst (calls cs q)) \<and>
         count_list (queue q1) k = 1 \<and>
         count_list (fst (calls (replicate (length (queue q1)) CallGet) q1)) k = 1 \<and>
         count_list (fst (calls cs' q1)) k + count_list (queue (snd (calls cs' q1))) k = 1"
proof -
  from assms(1) have "wq_ok q"
    by (simp add: wq_ok_calls wq_ok_new)
  with assms(2) have nq: "k \<notin> set (queue q)"
    by (auto simp: wq_ok_def)
  from assms(3,4) have "0 < count_list cs (CallAdd k)" by simp
  then have add: "CallAdd k \<in> set cs"
    by (simp add: count_list_pos)
  let ?q = "snd (calls cs q)"
  from calls_in_flight [OF assms(2) nq assms(5)] add
  have fl: "k \<notin> set (fst (calls cs q))" "k \<in> processing ?q" "k \<notin> set (queue ?q)" "k \<in> dirty ?q"
    by simp_all
  from Done_dirty_once [OF fl(2,3,4)] assms(6)
  have once: "count_list (queue q1) k = 1" and nd: "k \<notin> dirty q1"
    by simp_all
  from calls_once [OF nd assms(7)] once
  have "count_list (fst (calls cs' q1)) k + count_list (queue (snd (calls cs' q1))) k = 1"
    by simp
  with fl(1) once show ?thesis
    by (simp add: calls_Get_all)
qed

theorem queue_dedup_witness:
  "(\<lparr>queue = [], processing = {''a''}, dirty = {}\<rparr> :: string workqueue)
      = snd (calls [CallAdd ''a'', CallGet] new_queue) \<and>
   count_list [CallAdd ''a'', CallAdd ''b'', CallAdd ''a'', CallAdd ''a''] (CallAdd ''a'') = 3 \<and>
   fst (calls [CallAdd ''a'', CallAdd ''b'', CallAdd ''a'', CallAdd ''a'']
         \<lparr>queue = [], processing = {''a''}, dirty = {}\<rparr>) = [] \<and>
   count_list (queue (Done ''a'' (snd (calls [CallAdd ''a'', CallAdd ''b'', CallAdd ''a'', CallAdd ''a'']
         \<lparr>queue = [], processing = {''a''}, dirty = {}\<rparr>)))) ''a'' = 1 \<and>
   count_list (fst (calls [CallGet, CallGet, CallDone ''b'', CallDone ''a'', CallGet]
      (Done ''a'' (snd (calls [CallAdd ''a'', CallAdd ''b'', CallAdd ''a'', CallAdd ''a'']
         \<lparr>queue = [], processing = {''a''}, dirty = {}\<rparr>))))) ''a'' = 1"
proof -
  let ?q = "\<lparr>queue = [], processing = {''a''}, dirty = {}\<rparr> :: string workqueue"
  let ?cs = "[CallAdd ''a'', CallAdd ''b'', CallAdd ''a'', CallAdd ''a'']"
  let ?cs' = "[CallGet, CallGet, CallDone ''b'', CallDone ''a'', CallGet] :: string call list"
  have h1: "?q = snd (calls [CallAdd ''a'', CallGet] new_queue)"
    by (simp add: new_queue_def Add_def Get_def)
  have h2: "''a'' \<in> processing ?q" by simp
  have h3: "count_list ?cs (CallAdd ''a'') = 3" by simp
  have h4: "(1::nat) \<le> 3" by simp
  have h5: "CallDone ''a'' \<notin> set ?cs" by simp
  have h7: "CallAdd ''a'' \<notin> set ?cs'" by simp
  from queue_dedup [OF h1 h2 h3 h4 h5 refl h7] show ?thesis
    by (simp add: new_queue_def Add_def Get_def Done_def Let_def)
qed

text \<open>
  C4. Every call of the controller's \<^verbatim>\<open>Run\<close> that the command makes has worker
  count 2, and the command makes that call whenever logging configuration, kubeconfig
  and both clientsets succeed; the error it returns is then the one \<^verbatim>\<open>Run\<close>
  returns with 2 workers.
\<close>

theorem run_worker_count:
  "(\<forall>n. ControllerRun n \<in> set (fst (RunE p f)) \<longrightarrow> n = 2) \<and>
   (log_Configure p 0 = None \<and> log_Configure p 1 = None \<and>
    BuildConfigFromFlags p (masterURL f) (kubeconfig f) = Inr cfg \<and>
    kubernetes_NewForConfig p cfg = Inr kc \<and> clientset_NewForConfig p cfg = Inr wc \<longrightarrow>
      ControllerRun 2 \<in> set (fst (RunE p f)) \<and>
      snd (RunE p f) = controller_Run p kc wc (make_Config f) 2)"
proof -
  have "ControllerRun 2 \<in> set (fst (RunE p f)) \<and>
      snd (RunE p f) = controller_Run p kc wc (make_Config f) 2"
    if h: "log_Configure p 0 = None" "log_Configure p 1 = None"
      "BuildConfigFromFlags p (masterURL f) (kubeconfig f) = Inr cfg"
      "kubernetes_NewForConfig p cfg = Inr kc" "clientset_NewForConfig p cfg = Inr wc"
    using RunE_startup_ok(1) [OF h] RunE_startup_ok(2) [OF h] by auto
  then show ?thesis
    by (auto dest: RunE_ControllerRun_mem)
qed

theorem run_worker_count_witness:
  "ControllerRun 2 \<in> set (fst (RunE all_ok init_flags)) \<and>
   [n. ControllerRun n \<leftarrow> fst (RunE all_ok init_flags)] = [2] \<and>
   snd (RunE all_ok init_flags) = None"
proof -
  have a: "log_Configure all_ok 0 = None \<and> log_Configure all_ok 1 = None \<and>
    BuildConfigFromFlags all_ok (masterURL init_flags) (kubeconfig init_flags) = Inr () \<and>
    kubernetes_NewForConfig all_ok () = Inr () \<and> clientset_NewForConfig all_ok () = Inr ()"
    by (simp add: all_ok_def)
  have b: "[n. ControllerRun n \<leftarrow> fst (RunE all_ok init_flags)] = [2]"
    by (simp add: RunE_def all_ok_def)
  have c: "controller_Run all_ok () () (make_Config init_flags) 2 = None"
    by (simp add: all_ok_def)
  from run_worker_count [of all_ok init_flags "()" "()" "()"] a b c show ?thesis
    by simp
qed

text \<open>
  C5. Every configuration the command passes to the controller constructor carries
  the coredns address, the key file path, the certificate file path and the CA
  certificate file path of the flags unchanged, and its endpoint list is the
  \<^verbatim>\<open>etcdendpoints\<close> flag split on the comma: the list is not empty, no endpoint
  contains a comma, and joining the endpoints with commas gives the flag back.
\<close>

theorem config_assembly:
  assumes "NewController kc wc c \<in> set (fst (RunE p f))"
  shows "CoreDnsAddress c = corednsAddress f \<and>
         EtcdKeyFile c = etcdKeyFile f \<and>
         EtcdCertFile c = etcdCertFile f \<and>
         EtcdCaCertFile c = etcdCaCertile f \<and>
         EtcdEndpoints c = strings_Split (etcdEndpoints f) CHR '','' \<and>
         EtcdEndpoints c \<noteq> [] \<and>
         (\<forall>e \<in> set (EtcdEndpoints c). CHR '','' \<notin> set e) \<and>
         strings_Join (EtcdEndpoints c) '','' = etcdEndpoints f"
proof -
  from RunE_NewController_mem [OF assms] have "c = make_Config f" by simp
  then show ?thesis
    by (simp add: make_Config_def strings_Split_nonempty strings_Split_pieces strings_Join_Split)
qed

theorem config_assembly_witness:
  "NewController () ()
      \<lparr>CoreDnsAddress = ''10.96.0.10'', EtcdKeyFile = ''/etc/key.pem'',
       EtcdCertFile = ''/etc/cert.pem'', EtcdCaCertFile = ''/etc/ca.pem'',
       EtcdEndpoints = [''10.0.0.5:2379'', ''10.0.0.6:2379'']\<rparr>
      \<in> set (fst (RunE all_ok
          \<lparr>masterURL = [], kubeconfig = [], healthPort = 12345,
           corednsAddress = ''10.96.0.10'', etcdKeyFile = ''/etc/key.pem'', etcdCertFile = ''/etc/cert.pem'',
           etcdCaCertile = ''/etc/ca.pem'', etcdEndpoints = ''10.0.0.5:2379,10.0.0.6:2379''\<rparr>)) \<and>
   strings_Split ''10.0.0.5:2379,10.0.0.6:2379'' CHR '','' = [''10.0.0.5:2379'', ''10.0.0.6:2379''] \<and>
   strings_Join [''10.0.0.5:2379'', ''10.0.0.6:2379''] '','' = ''10.0.0.5:2379,10.0.0.6:2379''"
proof -
  let ?f = "\<lparr>masterURL = [], kubeconfig = [], healthPort = 12345,
           corednsAddress = ''10.96.0.10'', etcdKeyFile = ''/etc/key.pem'', etcdCertFile = ''/etc/cert.pem'',
           etcdCaCertile = ''/etc/ca.pem'', etcdEndpoints = ''10.0.0.5:2379,10.0.0.6:2379''\<rparr>"
  let ?c = "\<lparr>CoreDnsAddress = ''10.96.0.10'', EtcdKeyFile = ''/etc/key.pem'',
       EtcdCertFile = ''/etc/cert.pem'', EtcdCaCertFile = ''/etc/ca.pem'',
       EtcdEndpoints = [''10.0.0.5:2379'', ''10.0.0.6:2379'']\<rparr>"
  have m: "NewController () () ?c \<in> set (fst (RunE all_ok ?f))"
    by (simp add: RunE_def all_ok_def make_Config_def split_two)
  from config_assembly [OF m] m show ?thesis
    by (simp add: split_two)
qed

text \<open>
  C6. The run command returns an error if and only if one of the calls it makes returns
  one: the first or the second logging configuration, the kubeconfig construction, the
  kubernetes or the watcher clientset construction, or the controller's \<^verbatim>\<open>Run\<close>;
  otherwise it returns nil. \<^verbatim>\<open>main\<close> exits with \<open>-1\<close> exactly when the command
  returns an error.
\<close>

theorem fatal_error_propagation:
  "(snd (RunE p f) \<noteq> None \<longleftrightarrow>
     (log_Configure p 0 \<noteq> None \<or> log_Configure p 1 \<noteq> None \<or>
      isl (BuildConfigFromFlags p (masterURL f) (kubeconfig f)) \<or>
      (\<exists>cfg. BuildConfigFromFlags p (masterURL f) (kubeconfig f) = Inr cfg \<and>
         (isl (kubernetes_NewForConfig p cfg) \<or> isl (clientset_NewForConfig p cfg) \<or>
          (\<exists>kc wc. kubernetes_NewForConfig p cfg = Inr kc \<and>
             clientset_NewForConfig p cfg = Inr wc \<and>
             controller_Run p kc wc (make_Config f) 2 \<noteq> None))))) \<and>
   main_exit p f = (if snd (RunE p f) = None then 0 else - 1)"
proof -
  have "main_exit p f = (if snd (RunE p f) = None then 0 else - 1)"
    by (simp add: main_exit_def split: option.splits)
  with RunE_error_iff [of p f] show ?thesis
    by (rule_tac conjI)
qed

theorem fatal_error_propagation_witness:
  "snd (RunE all_ok init_flags) = None \<and> main_exit all_ok init_flags = 0 \<and>
   snd (RunE (all_ok\<lparr>controller_Run := (\<lambda>kc wc c n. Some (Error ''etcd unreachable''))\<rparr>)
          init_flags) = Some (Error ''etcd unreachable'') \<and>
   main_exit (all_ok\<lparr>controller_Run := (\<lambda>kc wc c n. Some (Error ''etcd unreachable''))\<rparr>)
          init_flags = - 1 \<and>
   snd (RunE (all_ok\<lparr>kubernetes_NewForConfig := (\<lambda>c. Inl (Error ''no host''))\<rparr>)
          init_flags) = Some (Error ''no host'')"
proof -
  let ?p = "all_ok\<lparr>controller_Run := (\<lambda>kc wc c n. Some (Error ''etcd unreachable''))\<rparr>"
  have a: "snd (RunE all_ok init_flags) = None"
    by (simp add: RunE_def all_ok_def)
  have b: "snd (RunE ?p init_flags) = Some (Error ''etcd unreachable'')"
    by (simp add: RunE_def all_ok_def)
  have c: "snd (RunE (all_ok\<lparr>kubernetes_NewForConfig := (\<lambda>c. Inl (Error ''no host''))\<rparr>)
          init_flags) = Some (Error ''no host'')"
    by (simp add: RunE_def all_ok_def)
  from fatal_error_propagation [of all_ok init_flags, THEN conjunct2]
    fatal_error_propagation [of ?p init_flags, THEN conjunct2] a b c
  show ?thesis by simp
qed




text \<open>
  C8. Every informer factory the command constructs, the kube one and the watcher one,
  gets the resync interval \<^verbatim>\<open>time.Second*30\<close>, which is 30 seconds in nanoseconds
  without overflow and not zero. The kube factory is constructed whenever the
  kubernetes clientset is, and the watcher factory whenever the watcher clientset is.
\<close>

theorem resync_interval:
  "(\<forall>kc d. NewKubeInformerFactory kc d \<in> set (fst (RunE p f)) \<longrightarrow> d = time_Second * 30) \<and>
   (\<forall>wc d. NewWatcherInformerFactory wc d \<in> set (fst (RunE p f)) \<longrightarrow> d = time_Second * 30) \<and>
   sint (time_Second * 30) = 30 * 10 ^ 9 \<and> time_Second * 30 \<noteq> 0 \<and>
   (log_Configure p 0 = None \<and> log_Configure p 1 = None \<and>
    BuildConfigFromFlags p (masterURL f) (kubeconfig f) = Inr cfg \<and>
    kubernetes_NewForConfig p cfg = Inr kc' \<longrightarrow>
      NewKubeInformerFactory kc' (time_Second * 30) \<in> set (fst (RunE p f))) \<and>
   (log_Configure p 0 = None \<and> log_Configure p 1 = None \<and>
    BuildConfigFromFlags p (masterURL f) (kubeconfig f) = Inr cfg \<and>
    kubernetes_NewForConfig p cfg = Inr kc' \<and> clientset_NewForConfig p cfg = Inr wc' \<longrightarrow>
      NewWatcherInformerFactory wc' (time_Second * 30) \<in> set (fst (RunE p f)))"
proof -
  have "sint (time_Second * 30) = 30 * 10 ^ 9" and "time_Second * 30 \<noteq> 0"
    by (simp_all add: time_Second_def)
  moreover have "NewKubeInformerFactory kc' (time_Second * 30) \<in> set (fst (RunE p f))"
    if "log_Configure p 0 = None" "log_Configure p 1 = None"
      "BuildConfigFromFlags p (masterURL f) (kubeconfig f) = Inr cfg"
      "kubernetes_NewForConfig p cfg = Inr kc'"
    using that by (auto simp: RunE_def Let_def split: option.splits sum.splits)
  moreover have "NewWatcherInformerFactory wc' (time_Second * 30) \<in> set (fst (RunE p f))"
    if "log_Configure p 0 = None" "log_Configure p 1 = None"
      "BuildConfigFromFlags p (masterURL f) (kubeconfig f) = Inr cfg"
      "kubernetes_NewForConfig p cfg = Inr kc'" "clientset_NewForConfig p cfg = Inr wc'"
    using that by (auto simp: RunE_def Let_def split: option.splits sum.splits)
  ultimately show ?thesis
    by (auto dest: RunE_kube_factory_mem RunE_watcher_factory_mem)
qed

theorem resync_interval_witness:
  "NewKubeInformerFactory () 30000000000 \<in> set (fst (RunE all_ok init_flags)) \<and>
   NewWatcherInformerFactory () 30000000000 \<in> set (fst (RunE all_ok init_flags)) \<and>
   time_Second * 30 = 30000000000"
proof -
  have a: "log_Configure all_ok 0 = None \<and> log_Configure all_ok 1 = None \<and>
    BuildConfigFromFlags all_ok (masterURL init_flags) (kubeconfig init_flags) = Inr () \<and>
    kubernetes_NewForConfig all_ok () = Inr () \<and> clientset_NewForConfig all_ok () = Inr ()"
    by (simp add: all_ok_def)
  have t: "time_Second * 30 = 30000000000"
    by (simp add: time_Second_def)
  from resync_interval [of all_ok init_flags "()" "()" "()"] a t show ?thesis
    by simp
qed

text \<open>
  C9. The \<^verbatim>\<open>/healthz\<close> handler is unconditional: on a fresh response writer it writes
  status 200 and body \<^verbatim>\<open>ok\<close>, and what it writes is the same for every request and for
  every state of the rest of the program.
\<close>

theorem healthz_unconditional:
  "healthz_handler g new_response r = \<lparr>wroteHeader = True, status = 200, body = ''ok''\<rparr> \<and>
   healthz_handler g w r = healthz_handler g' w r'"
  by (simp add: healthz_handler_def Fprint_def WriteHeader_def new_response_def StatusOK_def)

text \<open>
  C10. With the \<^verbatim>\<open>etcdendpoints\<close> flag at its default, the empty string, the
  configuration's endpoint list is the one-element list holding the empty string (no
  split ever gives the empty list), and startup proceeds with it: when logging
  configuration, kubeconfig and both clientsets succeed, the controller is constructed
  with that configuration and run.
\<close>

theorem default_endpoints:
  assumes "etcdEndpoints f = []"
    and "log_Configure p 0 = None" and "log_Configure p 1 = None"
    and "BuildConfigFromFlags p (masterURL f) (kubeconfig f) = Inr cfg"
    and "kubernetes_NewForConfig p cfg = Inr kc"
    and "clientset_NewForConfig p cfg = Inr wc"
  shows "etcdEndpoints init_flags = [] \<and>
         EtcdEndpoints (make_Config f) = [[]] \<and>
         strings_Split s CHR '','' \<noteq> [] \<and>
         NewController kc wc (make_Config f) \<in> set (fst (RunE p f)) \<and>
         ControllerRun 2 \<in> set (fst (RunE p f))"
proof -
  from assms(1) have "EtcdEndpoints (make_Config f) = [[]]"
    by (simp add: make_Config_def strings_Split_empty)
  moreover from RunE_startup_ok(1) [OF assms(2-6)]
  have "NewController kc wc (make_Config f) \<in> set (fst (RunE p f))"
    and "ControllerRun 2 \<in> set (fst (RunE p f))"
    by auto
  ultimately show ?thesis
    by (simp add: init_flags_def strings_Split_nonempty)
qed

theorem default_endpoints_witness:
  "etcdEndpoints init_flags = [] \<and>
   log_Configure all_ok 0 = None \<and> log_Configure all_ok 1 = None \<and>
   BuildConfigFromFlags all_ok (masterURL init_flags) (kubeconfig init_flags) = Inr () \<and>
   kubernetes_NewForConfig all_ok () = Inr () \<and> clientset_NewForConfig all_ok () = Inr () \<and>
   EtcdEndpoints (make_Config init_flags) = [[]] \<and>
   length (EtcdEndpoints (make_Config init_flags)) = 1 \<and>
   NewController () () (make_Config init_flags) \<in> set (fst (RunE all_ok init_flags)) \<and>
   ControllerRun 2 \<in> set (fst (RunE all_ok init_flags))"
proof -
  have a: "etcdEndpoints init_flags = []"
    by (simp add: init_flags_def)
  have b: "log_Configure all_ok 0 = None" "log_Configure all_ok 1 = None"
    "BuildConfigFromFlags all_ok (masterURL init_flags) (kubeconfig init_flags) = Inr ()"
    "kubernetes_NewForConfig all_ok () = Inr ()" "clientset_NewForConfig all_ok () = Inr ()"
    by (simp_all add: all_ok_def)
  from default_endpoints [OF a b, of "[]"] a b show ?thesis
    by simp
qed

end
